theory Spec2Isabelle
  imports Complex_Main
begin

section \<open>Values of the step fields\<close>

text \<open>
  The numeric fields of a step hold JavaScript values.  \<open>estimatedMin\<close> is written by
  \<open>parseInt\<close> (an integer, \<open>NaN\<close> or an infinity) and read back from a JSON document (an
  integer or \<open>null\<close>); \<open>actualMin\<close>, \<open>timeSpent\<close>, \<open>timeBank\<close> and \<open>timerSeconds\<close> are
  integers (the first two or \<open>null\<close>).  \<open>Num n\<close> stands for the double of value \<open>n\<close>; sums
  and differences of integers are taken exactly, as doubles do below \<open>2 ^ 53\<close>, and \<open>-0\<close>
  is not told from \<open>0\<close>.
\<close>

datatype numval = Null | NaN | Num int | PosInfinity | NegInfinity

text \<open>\<open>ToNumber\<close>: \<open>null\<close> converts to \<open>0\<close>.\<close>

fun toNumber :: "numval \<Rightarrow> numval" where
  "toNumber Null = Num 0"
| "toNumber v = v"

text \<open>
  The operators \<open>a + b\<close> and \<open>a - b\<close> on these values: \<open>NaN\<close> absorbs, an infinity
  absorbs every integer, and infinities that cancel give \<open>NaN\<close>.
\<close>

definition js_add :: "numval \<Rightarrow> numval \<Rightarrow> numval" where
  "js_add a b =
     (case (toNumber a, toNumber b) of
        (Num x, Num y) \<Rightarrow> Num (x + y)
      | (Num x, PosInfinity) \<Rightarrow> PosInfinity
      | (Num x, NegInfinity) \<Rightarrow> NegInfinity
      | (PosInfinity, Num y) \<Rightarrow> PosInfinity
      | (PosInfinity, PosInfinity) \<Rightarrow> PosInfinity
      | (NegInfinity, Num y) \<Rightarrow> NegInfinity
      | (NegInfinity, NegInfinity) \<Rightarrow> NegInfinity
      | _ \<Rightarrow> NaN)"

definition js_sub :: "numval \<Rightarrow> numval \<Rightarrow> numval" where
  "js_sub a b =
     (case (toNumber a, toNumber b) of
        (Num x, Num y) \<Rightarrow> Num (x - y)
      | (Num x, PosInfinity) \<Rightarrow> NegInfinity
      | (Num x, NegInfinity) \<Rightarrow> PosInfinity
      | (PosInfinity, Num y) \<Rightarrow> PosInfinity
      | (PosInfinity, NegInfinity) \<Rightarrow> PosInfinity
      | (NegInfinity, Num y) \<Rightarrow> NegInfinity
      | (NegInfinity, PosInfinity) \<Rightarrow> NegInfinity
      | _ \<Rightarrow> NaN)"

text \<open>\<open>x || 0\<close> for a field that is \<open>null\<close> or an integer.\<close>

definition or_zero :: "int option \<Rightarrow> int" where
  "or_zero x = (case x of None \<Rightarrow> 0 | Some n \<Rightarrow> if n = 0 then 0 else n)"

text \<open>A nullable integer read as a JavaScript value.\<close>

definition nullable :: "int option \<Rightarrow> numval" where
  "nullable x = (case x of None \<Rightarrow> Null | Some n \<Rightarrow> Num n)"

text \<open>The integer that a value counts as in a sum, for \<open>null\<close> or an integer.\<close>

definition int_of :: "numval \<Rightarrow> int" where
  "int_of v = (case toNumber v of Num n \<Rightarrow> n | _ \<Rightarrow> 0)"

section \<open>Data model\<close>

record step =
  step_id :: int
  step_title :: string
  estimatedMin :: numval
  actualMin :: "int option"
  completed :: bool
  timeSpent :: "int option"

record outcome =
  outcome_id :: int
  outcome_title :: string
  steps :: "step list"

record timer =
  outcomeId :: int
  stepId :: int

section \<open>Balance accounting\<close>

text \<open>\<open>Array.prototype.reduce\<close> with an initial value.\<close>

definition reduce :: "('b \<Rightarrow> 'a \<Rightarrow> 'b) \<Rightarrow> 'b \<Rightarrow> 'a list \<Rightarrow> 'b" where
  "reduce f init xs = foldl f init xs"

definition completedSteps :: "outcome \<Rightarrow> step list" where
  "completedSteps outc = filter completed (steps outc)"

definition estimatedForCompleted :: "step list \<Rightarrow> numval" where
  "estimatedForCompleted cs = reduce (\<lambda>sum st. js_add sum (estimatedMin st)) (Num 0) cs"

definition actualForCompleted :: "step list \<Rightarrow> numval" where
  "actualForCompleted cs = reduce (\<lambda>sum st. js_add sum (Num (or_zero (actualMin st)))) (Num 0) cs"

text \<open>The memoised \<open>globalBalance\<close> of the component, a function of \<open>outcomes\<close> and \<open>timeBank\<close>.\<close>

definition globalBalance :: "outcome list \<Rightarrow> int \<Rightarrow> numval" where
  "globalBalance os tb =
     (let outcomeBalance =
        reduce (\<lambda>total outc.
                  let cs = completedSteps outc in
                  if length cs = 0 then total
                  else js_add total (js_sub (estimatedForCompleted cs) (actualForCompleted cs)))
               (Num 0) os
      in js_add outcomeBalance (Num tb))"

text \<open>The per-outcome \<open>balance\<close> computed while rendering an outcome.\<close>

definition balance :: "outcome \<Rightarrow> numval" where
  "balance outc =
     (let cs = completedSteps outc in
      if length cs = 0 then Num 0
      else js_sub (estimatedForCompleted cs) (actualForCompleted cs))"

subsection \<open>The accounting rules as the specification words them\<close>

fun sum_numvals :: "numval list \<Rightarrow> numval" where
  "sum_numvals [] = Num 0"
| "sum_numvals (x # xs) = js_add x (sum_numvals xs)"

text \<open>A completed step contributes \<open>estimatedMin - actualMin\<close>, an incomplete one \<open>0\<close>.\<close>

definition spec_step_balance :: "step \<Rightarrow> numval" where
  "spec_step_balance st =
     (if completed st then js_sub (estimatedMin st) (nullable (actualMin st)) else Num 0)"

definition spec_outcome_balance :: "outcome \<Rightarrow> numval" where
  "spec_outcome_balance outc = sum_numvals (map spec_step_balance (steps outc))"

definition spec_global_balance :: "outcome list \<Rightarrow> int \<Rightarrow> numval" where
  "spec_global_balance os tb = js_add (sum_numvals (map spec_outcome_balance os)) (Num tb)"


section \<open>Strings\<close>

text \<open>
  A character is a UTF-16 code unit below 256, so the strings are those of Latin-1.  The
  white space of \<open>trim\<close> and \<open>parseInt\<close> is the ECMAScript white space and line terminators
  in that range: tab, line feed, vertical tab, form feed, carriage return, space and the
  no-break space \<open>U+00A0\<close>.
\<close>

definition isWhiteSpace :: "char \<Rightarrow> bool" where
  "isWhiteSpace c \<longleftrightarrow>
     c \<in> set [CHR 0x09, CHR 0x0A, CHR 0x0B, CHR 0x0C, CHR 0x0D, CHR 0x20, CHR 0xA0]"

definition trim :: "string \<Rightarrow> string" where
  "trim s = rev (dropWhile isWhiteSpace (rev (dropWhile isWhiteSpace s)))"

definition digitValue :: "char \<Rightarrow> nat option" where
  "digitValue c =
     (let n = (of_char c :: nat) in
      if 48 \<le> n \<and> n \<le> 57 then Some (n - 48)
      else if 97 \<le> n \<and> n \<le> 122 then Some (n - 87)
      else if 65 \<le> n \<and> n \<le> 90 then Some (n - 55)
      else None)"

definition isRadixDigit :: "nat \<Rightarrow> char \<Rightarrow> bool" where
  "isRadixDigit R c = (case digitValue c of None \<Rightarrow> False | Some d \<Rightarrow> d < R)"

definition digitsValue :: "nat \<Rightarrow> string \<Rightarrow> nat" where
  "digitsValue R Z = foldl (\<lambda>a c. a * R + (case digitValue c of None \<Rightarrow> 0 | Some d \<Rightarrow> d)) 0 Z"

text \<open>The number of binary digits of a natural number.\<close>

fun bitlen :: "nat \<Rightarrow> nat" where
  "bitlen n = (if n = 0 then 0 else Suc (bitlen (n div 2)))"

declare bitlen.simps [simp del]

text \<open>
  The double nearest to an integer: exact below \<open>2 ^ 53\<close>, otherwise rounded to 53
  binary digits with ties to the even neighbour, and an infinity from \<open>2 ^ 1024\<close> on.
\<close>

definition toDouble :: "int \<Rightarrow> numval" where
  "toDouble n =
     (if \<bar>n\<bar> < 2 ^ 53 then Num n
      else
        let a = nat \<bar>n\<bar>;
            e = bitlen a - 53;
            q = a div 2 ^ e;
            r = a mod 2 ^ e;
            q' = (if 2 ^ e < 2 * r \<or> (2 * r = 2 ^ e \<and> odd q) then q + 1 else q);
            m = q' * 2 ^ e
        in if 2 ^ 1024 \<le> m then (if n < 0 then NegInfinity else PosInfinity)
           else Num (if n < 0 then - int m else int m))"

text \<open>
  \<open>parseInt(string)\<close> with no radix: leading white space is skipped, a sign is read, a
  \<open>0x\<close> prefix selects radix 16, and the longest prefix of digits is the value, as the
  double nearest to it; with no digit the result is \<open>NaN\<close>.
\<close>

definition parseInt :: "string \<Rightarrow> numval" where
  "parseInt s =
     (let S = dropWhile isWhiteSpace s;
          sign = (if S \<noteq> [] \<and> hd S = CHR ''-'' then - 1 else (1::int));
          S1 = (if S \<noteq> [] \<and> (hd S = CHR ''+'' \<or> hd S = CHR ''-'') then tl S else S);
          hex = (2 \<le> length S1 \<and> S1 ! 0 = CHR ''0'' \<and> (S1 ! 1 = CHR ''x'' \<or> S1 ! 1 = CHR ''X''));
          R = (if hex then 16 else 10);
          S2 = (if hex then drop 2 S1 else S1);
          Z = takeWhile (isRadixDigit R) S2
      in if Z = [] then NaN else toDouble (sign * int (digitsValue R Z)))"

section \<open>Application state\<close>

record new_step_form =
  form_title :: string
  form_estimatedMin :: string

record app_state =
  outcomes :: "outcome list"
  activeTimer :: "timer option"
  timerSeconds :: int
  stepNotes :: "string \<rightharpoonup> string"
  timeBank :: int
  newOutcome :: string
  newStep :: new_step_form
  addingStepTo :: "int option"
  notification :: "(string \<times> string) option"

definition DEFAULT_OUTCOMES :: "outcome list" where
  "DEFAULT_OUTCOMES =
    [\<lparr>outcome_id = 1, outcome_title = ''Write Marketing Blog Post'', steps =
       [\<lparr>step_id = 1, step_title = ''Research competitors & trends'', estimatedMin = Num 60,
          actualMin = None, completed = False, timeSpent = Some 0\<rparr>,
        \<lparr>step_id = 2, step_title = ''Create detailed outline'', estimatedMin = Num 45,
          actualMin = None, completed = False, timeSpent = Some 0\<rparr>,
        \<lparr>step_id = 3, step_title = ''Write first draft'', estimatedMin = Num 120,
          actualMin = None, completed = False, timeSpent = Some 0\<rparr>,
        \<lparr>step_id = 4, step_title = ''Edit, optimize & publish'', estimatedMin = Num 30,
          actualMin = None, completed = False, timeSpent = Some 0\<rparr>]\<rparr>,
     \<lparr>outcome_id = 2, outcome_title = ''Design Client Logo'', steps =
       [\<lparr>step_id = 1, step_title = ''Research brand & create mood board'', estimatedMin = Num 90,
          actualMin = None, completed = False, timeSpent = Some 0\<rparr>,
        \<lparr>step_id = 2, step_title = ''Sketch 10 initial concepts'', estimatedMin = Num 75,
          actualMin = None, completed = False, timeSpent = Some 0\<rparr>,
        \<lparr>step_id = 3, step_title = ''Create 3 digital versions'', estimatedMin = Num 60,
          actualMin = None, completed = False, timeSpent = Some 0\<rparr>,
        \<lparr>step_id = 4, step_title = ''Refine chosen concept'', estimatedMin = Num 45,
          actualMin = None, completed = False, timeSpent = Some 0\<rparr>]\<rparr>]"

text \<open>The state of a freshly mounted component whose store holds nothing yet.\<close>

definition initial_state :: app_state where
  "initial_state =
     \<lparr>outcomes = DEFAULT_OUTCOMES, activeTimer = None, timerSeconds = 0,
      stepNotes = Map.empty, timeBank = 0, newOutcome = [],
      newStep = \<lparr>form_title = [], form_estimatedMin = []\<rparr>,
      addingStepTo = None, notification = None\<rparr>"

text \<open>\<open>showNotification\<close> sets the notice; its removal three seconds later is not modelled.\<close>

definition showNotification :: "string \<Rightarrow> string \<Rightarrow> app_state \<Rightarrow> app_state" where
  "showNotification message type s = s\<lparr>notification := Some (message, type)\<rparr>"

section \<open>Timer operations\<close>

definition startTimer :: "int \<Rightarrow> int \<Rightarrow> app_state \<Rightarrow> app_state" where
  "startTimer oid sid s =
     s\<lparr>activeTimer := Some \<lparr>outcomeId = oid, stepId = sid\<rparr>, timerSeconds := 0\<rparr>"

text \<open>The one-second interval, which runs while a timer is active.\<close>

definition tick :: "app_state \<Rightarrow> app_state" where
  "tick s = (if activeTimer s \<noteq> None then s\<lparr>timerSeconds := timerSeconds s + 1\<rparr> else s)"

text \<open>\<open>Math.ceil(timerSeconds / 60)\<close>.\<close>

definition ceilMinutes :: "int \<Rightarrow> int" where
  "ceilMinutes secs = \<lceil>real_of_int secs / 60\<rceil>"

definition pauseTimer :: "app_state \<Rightarrow> app_state" where
  "pauseTimer s =
     (let s1 = (case activeTimer s of
                  None \<Rightarrow> s
                | Some t \<Rightarrow>
                    let timeToAdd = ceilMinutes (timerSeconds s) in
                    s\<lparr>outcomes := map (\<lambda>outc.
                         if outcome_id outc = outcomeId t
                         then outc\<lparr>steps := map (\<lambda>st.
                                if step_id st = stepId t
                                then st\<lparr>timeSpent := Some (or_zero (timeSpent st) + timeToAdd)\<rparr>
                                else st) (steps outc)\<rparr>
                         else outc) (outcomes s)\<rparr>)
      in s1\<lparr>activeTimer := None, timerSeconds := 0\<rparr>)"

definition addTime :: "app_state \<Rightarrow> app_state" where
  "addTime s =
     (if activeTimer s \<noteq> None \<and> timeBank s \<ge> 10
      then showNotification ''Added 10 minutes from time bank'' ''success''
             (s\<lparr>timeBank := timeBank s - 10, timerSeconds := timerSeconds s + 600\<rparr>)
      else showNotification ''Not enough time in bank'' ''warning'' s)"

definition markStepDone :: "app_state \<Rightarrow> app_state" where
  "markStepDone s =
     (let s1 = (case activeTimer s of
                  None \<Rightarrow> s
                | Some t \<Rightarrow>
                    let totalTime = ceilMinutes (timerSeconds s) in
                    showNotification ''Step completed!'' ''success''
                      (s\<lparr>outcomes := map (\<lambda>outc.
                           if outcome_id outc = outcomeId t
                           then outc\<lparr>steps := map (\<lambda>st.
                                  if step_id st = stepId t
                                  then st\<lparr>actualMin := Some (or_zero (timeSpent st) + totalTime),
                                         completed := True,
                                         timeSpent := Some 0\<rparr>
                                  else st) (steps outc)\<rparr>
                           else outc) (outcomes s)\<rparr>))
      in s1\<lparr>activeTimer := None, timerSeconds := 0\<rparr>)"

text \<open>The test the view uses to mark the running step.\<close>

definition isActive :: "app_state \<Rightarrow> outcome \<Rightarrow> step \<Rightarrow> bool" where
  "isActive s outc st =
     (case activeTimer s of
        None \<Rightarrow> False
      | Some t \<Rightarrow> outcomeId t = outcome_id outc \<and> stepId t = step_id st)"

section \<open>Outcome and step management\<close>

text \<open>\<open>Math.max(...ids, 0)\<close>.\<close>

definition mathMax0 :: "int list \<Rightarrow> int" where
  "mathMax0 ids = foldr max ids 0"

definition addOutcome :: "app_state \<Rightarrow> app_state" where
  "addOutcome s =
     (if trim (newOutcome s) = [] then s
      else
        let newId = mathMax0 (map outcome_id (outcomes s)) + 1 in
        showNotification ''Outcome added'' ''success''
          (s\<lparr>outcomes := outcomes s @
                 [\<lparr>outcome_id = newId, outcome_title = trim (newOutcome s), steps = []\<rparr>],
             newOutcome := []\<rparr>))"

text \<open>
  \<open>newStep.estimatedMin\<close> is the text of the minutes field, so \<open>!newStep.estimatedMin\<close>
  holds for the empty text only.
\<close>

definition addStep :: "int \<Rightarrow> app_state \<Rightarrow> app_state" where
  "addStep outcomeId' s =
     (if trim (form_title (newStep s)) = [] \<or> form_estimatedMin (newStep s) = [] then s
      else
        showNotification ''Step added'' ''success''
          (s\<lparr>outcomes := map (\<lambda>outc.
                 if outcome_id outc = outcomeId'
                 then
                   let newStepId = mathMax0 (map step_id (steps outc)) + 1 in
                   outc\<lparr>steps := steps outc @
                          [\<lparr>step_id = newStepId,
                            step_title = trim (form_title (newStep s)),
                            estimatedMin = parseInt (form_estimatedMin (newStep s)),
                            actualMin = None,
                            completed = False,
                            timeSpent = Some 0\<rparr>]\<rparr>
                 else outc) (outcomes s),
             newStep := \<lparr>form_title = [], form_estimatedMin = []\<rparr>,
             addingStepTo := None\<rparr>))"

text \<open>\<open>removeOutcome\<close> asks for confirmation first; \<open>confirmed\<close> is the answer.\<close>

definition removeOutcome :: "bool \<Rightarrow> int \<Rightarrow> app_state \<Rightarrow> app_state" where
  "removeOutcome confirmed oid s =
     (if \<not> confirmed then s
      else showNotification ''Outcome deleted'' ''success''
             (s\<lparr>outcomes := filter (\<lambda>outc. outcome_id outc \<noteq> oid) (outcomes s)\<rparr>))"

definition removeStep :: "int \<Rightarrow> int \<Rightarrow> app_state \<Rightarrow> app_state" where
  "removeStep oid sid s =
     showNotification ''Step deleted'' ''success''
       (s\<lparr>outcomes := map (\<lambda>outc.
              if outcome_id outc = oid
              then outc\<lparr>steps := filter (\<lambda>st. step_id st \<noteq> sid) (steps outc)\<rparr>
              else outc) (outcomes s)\<rparr>)"

section \<open>Export and import\<close>

text \<open>
  \<open>JSON.stringify\<close> writes \<open>NaN\<close> and the infinities as \<open>null\<close>; every other value of the
  state is read back by \<open>JSON.parse\<close> as it was written.
\<close>

definition json_numval :: "numval \<Rightarrow> numval" where
  "json_numval v =
     (case v of NaN \<Rightarrow> Null | PosInfinity \<Rightarrow> Null | NegInfinity \<Rightarrow> Null | _ \<Rightarrow> v)"

definition json_step :: "step \<Rightarrow> step" where
  "json_step st = st\<lparr>estimatedMin := json_numval (estimatedMin st)\<rparr>"

definition json_outcome :: "outcome \<Rightarrow> outcome" where
  "json_outcome outc = outc\<lparr>steps := map json_step (steps outc)\<rparr>"

text \<open>
  The value of the \<open>outcomes\<close> property of a parsed document: any JSON value or
  \<open>undefined\<close>.  An array is taken to hold outcome records; the content of any other
  object plays no part.
\<close>

datatype outcomes_value =
  Undefined | JNull | JBool bool | JNum int | JStr string | JObject | JArray "outcome list"

fun truthy :: "outcomes_value \<Rightarrow> bool" where
  "truthy Undefined = False"
| "truthy JNull = False"
| "truthy (JBool b) = b"
| "truthy (JNum n) = (n \<noteq> 0)"
| "truthy (JStr s) = (s \<noteq> [])"
| "truthy JObject = True"
| "truthy (JArray xs) = True"

fun isArray :: "outcomes_value \<Rightarrow> bool" where
  "isArray (JArray xs) = True"
| "isArray _ = False"

text \<open>
  A parsed document.  \<open>doc_stepNotes\<close> and \<open>doc_timeBank\<close> are \<open>None\<close> when the property is
  missing or \<open>null\<close>.
\<close>

record document =
  doc_outcomes :: outcomes_value
  doc_stepNotes :: "(string \<rightharpoonup> string) option"
  doc_timeBank :: "int option"
  exportDate :: string
  version :: string

text \<open>The document that \<open>exportData\<close> serialises, as \<open>JSON.parse\<close> reads it back.\<close>

definition export_document :: "string \<Rightarrow> app_state \<Rightarrow> document" where
  "export_document now s =
     \<lparr>doc_outcomes = JArray (map json_outcome (outcomes s)),
      doc_stepNotes = Some (stepNotes s),
      doc_timeBank = Some (timeBank s),
      exportDate = now,
      version = ''1.0''\<rparr>"

text \<open>
  \<open>exportData\<close>: \<open>downloaded\<close> tells whether the browser calls that save the file
  returned; when one of them throws, the handler reports the failure.
\<close>

definition exportData :: "string \<Rightarrow> bool \<Rightarrow> app_state \<Rightarrow> document option \<times> app_state" where
  "exportData now downloaded s =
     (if downloaded
      then (Some (export_document now s), showNotification ''Data exported successfully'' ''success'' s)
      else (None, showNotification ''Export failed'' ''error'' s))"

datatype exn = SyntaxError | Error string | QuotaExceededError | TypeError | SecurityError

text \<open>
  What \<open>JSON.parse\<close> makes of the file: it throws (also taken for a text whose value has
  no properties to read), or it returns a document.
\<close>

datatype parsed = Throws | Data document

text \<open>What the file input delivers: no file, a read error, or the text of the file.\<close>

datatype file_event = NoFile | ReadError | FileText parsed

text \<open>The \<open>try\<close> block of \<open>reader.onload\<close>: the exception it raises, if any, and the state then.\<close>

definition import_try :: "parsed \<Rightarrow> app_state \<Rightarrow> (exn + unit) \<times> app_state" where
  "import_try p s =
     (case p of
        Throws \<Rightarrow> (Inl SyntaxError, s)
      | Data d \<Rightarrow>
          if \<not> truthy (doc_outcomes d) \<or> \<not> isArray (doc_outcomes d)
          then (Inl (Error ''Invalid data format''), s)
          else
            (case doc_outcomes d of
               JArray os \<Rightarrow>
                 (Inr (),
                  showNotification ''Data imported successfully'' ''success''
                    (s\<lparr>outcomes := os,
                       stepNotes := (case doc_stepNotes d of None \<Rightarrow> Map.empty | Some n \<Rightarrow> n),
                       timeBank := or_zero (doc_timeBank d)\<rparr>))
             | _ \<Rightarrow> (Inl (Error ''Invalid data format''), s)))"

definition importData :: "file_event \<Rightarrow> app_state \<Rightarrow> app_state" where
  "importData ev s =
     (case ev of
        NoFile \<Rightarrow> s
      | ReadError \<Rightarrow> showNotification ''Failed to read file'' ''error'' s
      | FileText p \<Rightarrow>
          (case import_try p s of
             (Inl e, s') \<Rightarrow> showNotification ''Import failed: Invalid file format'' ''error'' s'
           | (Inr u, s') \<Rightarrow> s'))"

section \<open>Persistence adapter\<close>

text \<open>
  What the page finds at \<open>window.localStorage\<close>: there is no \<open>window\<close> (server-side
  rendering); reading the property throws a \<open>SecurityError\<close> (the user has blocked site
  data, or the origin is opaque); the property is \<open>undefined\<close> or \<open>null\<close>; or it is a
  storage object.
\<close>

datatype window_localStorage = NoWindow | AccessDenied | NoStorage | Storage

text \<open>
  The browser as \<open>storage.set\<close> sees it: \<open>window.localStorage\<close>, whether a \<open>setItem\<close>
  call returns or throws (quota, private browsing), and \<open>JSON.stringify\<close>, which is \<open>None\<close>
  where it throws.
\<close>

record 'v browser =
  localStorage_property :: window_localStorage
  setItem_ok :: "string \<Rightarrow> string \<Rightarrow> bool"
  stringify :: "'v \<Rightarrow> string option"

record 'v stores =
  localStorage :: "string \<rightharpoonup> string"
  memoryStorage :: "string \<rightharpoonup> 'v"

text \<open>
  \<open>isBrowser\<close> tests \<open>typeof window\<close>, then reads \<open>window.localStorage\<close> twice; the read
  is not guarded, so its exception is the exception of \<open>isBrowser\<close>.
\<close>

definition isBrowser :: "'v browser \<Rightarrow> exn + bool" where
  "isBrowser env =
     (case localStorage_property env of
        NoWindow \<Rightarrow> Inr False
      | AccessDenied \<Rightarrow> Inl SecurityError
      | NoStorage \<Rightarrow> Inr False
      | Storage \<Rightarrow> Inr True)"

definition ls_setItem :: "'v browser \<Rightarrow> string \<Rightarrow> string \<Rightarrow> 'v stores \<Rightarrow> exn + 'v stores" where
  "ls_setItem env k v st =
     (if setItem_ok env k v then Inr (st\<lparr>localStorage := (localStorage st)(k \<mapsto> v)\<rparr>)
      else Inl QuotaExceededError)"

definition ls_removeItem :: "string \<Rightarrow> 'v stores \<Rightarrow> 'v stores" where
  "ls_removeItem k st = st\<lparr>localStorage := (localStorage st)(k := None)\<rparr>"

text \<open>\<open>Map.prototype.set\<close> on the memory map.\<close>

definition memory_set :: "string \<Rightarrow> 'v \<Rightarrow> 'v stores \<Rightarrow> exn + 'v stores" where
  "memory_set k v st = Inr (st\<lparr>memoryStorage := (memoryStorage st)(k \<mapsto> v)\<rparr>)"

text \<open>
  \<open>isStorageAvailable\<close> calls \<open>isBrowser\<close> before its \<open>try\<close> block and probes the store
  inside it.
\<close>

definition isStorageAvailable :: "'v browser \<Rightarrow> 'v stores \<Rightarrow> (exn + bool) \<times> 'v stores" where
  "isStorageAvailable env st =
     (case isBrowser env of
        Inl e \<Rightarrow> (Inl e, st)
      | Inr False \<Rightarrow> (Inr False, st)
      | Inr True \<Rightarrow>
          (case ls_setItem env ''__storage_test__'' ''test'' st of
             Inl e \<Rightarrow> (Inr False, st)
           | Inr st1 \<Rightarrow> (Inr True, ls_removeItem ''__storage_test__'' st1)))"

text \<open>\<open>try { body } catch (error) { handler }\<close> over the stores.\<close>

definition try_catch ::
  "('s \<Rightarrow> (exn + 'a) \<times> 's) \<Rightarrow> (exn \<Rightarrow> 's \<Rightarrow> (exn + 'a) \<times> 's) \<Rightarrow> 's \<Rightarrow> (exn + 'a) \<times> 's" where
  "try_catch body handler st =
     (case body st of (Inl e, st') \<Rightarrow> handler e st' | (Inr r, st') \<Rightarrow> (Inr r, st'))"

definition set_body :: "'v browser \<Rightarrow> string \<Rightarrow> 'v \<Rightarrow> 'v stores \<Rightarrow> (exn + bool) \<times> 'v stores" where
  "set_body env key val st =
     (case stringify env val of
        None \<Rightarrow> (Inl TypeError, st)
      | Some serializedValue \<Rightarrow>
          (case isStorageAvailable env st of
             (Inl e, st1) \<Rightarrow> (Inl e, st1)
           | (Inr True, st1) \<Rightarrow>
               (case ls_setItem env key serializedValue st1 of
                  Inl e \<Rightarrow> (Inl e, st1)
                | Inr st2 \<Rightarrow>
                    (case memory_set key val st2 of
                       Inl e \<Rightarrow> (Inl e, st2)
                     | Inr st3 \<Rightarrow> (Inr True, st3)))
           | (Inr False, st1) \<Rightarrow>
               (case memory_set key val st1 of
                  Inl e \<Rightarrow> (Inl e, st1)
                | Inr st2 \<Rightarrow> (Inr True, st2))))"

definition set_fallback :: "string \<Rightarrow> 'v \<Rightarrow> 'v stores \<Rightarrow> (exn + bool) \<times> 'v stores" where
  "set_fallback key val st =
     (case memory_set key val st of
        Inl e \<Rightarrow> (Inl e, st)
      | Inr st1 \<Rightarrow> (Inr True, st1))"

text \<open>
  \<open>storage.set\<close>: the value it returns, or the exception that reaches the caller, and the
  stores afterwards.  The first call of \<open>isBrowser\<close> stands before the \<open>try\<close> block.
\<close>

definition storage_set :: "'v browser \<Rightarrow> string \<Rightarrow> 'v \<Rightarrow> 'v stores \<Rightarrow> (exn + bool) \<times> 'v stores" where
  "storage_set env key val st =
     (case isBrowser env of
        Inl e \<Rightarrow> (Inl e, st)
      | Inr False \<Rightarrow> (Inr False, st)
      | Inr True \<Rightarrow>
          try_catch (set_body env key val)
            (\<lambda>error. try_catch (set_fallback key val) (\<lambda>memoryError st'. (Inr False, st')))
            st)"

text \<open>
  The primary write of \<open>storage.set\<close> succeeds: the call reaches
  \<open>window.localStorage.setItem(key, serializedValue)\<close> and that call returns.
\<close>

definition primary_write_succeeds :: "'v browser \<Rightarrow> string \<Rightarrow> 'v \<Rightarrow> 'v stores \<Rightarrow> bool" where
  "primary_write_succeeds env key val st =
     (isBrowser env = Inr True \<and>
      (case stringify env val of
         None \<Rightarrow> False
       | Some serializedValue \<Rightarrow>
           fst (isStorageAvailable env st) = Inr True \<and> setItem_ok env key serializedValue))"

section \<open>Invariants and example states\<close>

text \<open>A step that is not completed has no actual minutes.\<close>

definition actualMin_null_until_completed :: "outcome list \<Rightarrow> bool" where
  "actualMin_null_until_completed os =
     list_all (\<lambda>outc. list_all (\<lambda>st. \<not> completed st \<longrightarrow> actualMin st = None) (steps outc)) os"

text \<open>The outcome list that an import installs, if it installs one.\<close>

definition imported_outcomes :: "file_event \<Rightarrow> outcome list option" where
  "imported_outcomes ev =
     (case ev of
        FileText (Data d) \<Rightarrow> (case doc_outcomes d of JArray os \<Rightarrow> Some os | _ \<Rightarrow> None)
      | _ \<Rightarrow> None)"

text \<open>A value that JSON can hold: \<open>null\<close> or an integer, not \<open>NaN\<close> and not an infinity.\<close>

definition finite_or_null :: "numval \<Rightarrow> bool" where
  "finite_or_null v = (case v of Null \<Rightarrow> True | Num n \<Rightarrow> True | _ \<Rightarrow> False)"

text \<open>Every estimate is \<open>null\<close> or an integer.\<close>

definition estimates_finite :: "outcome list \<Rightarrow> bool" where
  "estimates_finite os =
     list_all (\<lambda>outc. list_all (\<lambda>st. finite_or_null (estimatedMin st)) (steps outc)) os"

text \<open>The active timer points at a step of the outcome list.\<close>

definition timer_target_exists :: "app_state \<Rightarrow> bool" where
  "timer_target_exists s = list_ex (\<lambda>outc. list_ex (isActive s outc) (steps outc)) (outcomes s)"

text \<open>A step paused at five minutes runs again, 125 seconds in, with 15 minutes banked.\<close>

definition example_running :: app_state where
  "example_running =
     \<lparr>outcomes =
        [\<lparr>outcome_id = 1, outcome_title = ''Write Marketing Blog Post'', steps =
           [\<lparr>step_id = 1, step_title = ''Create detailed outline'', estimatedMin = Num 45,
              actualMin = None, completed = False, timeSpent = Some 5\<rparr>]\<rparr>],
      activeTimer = Some \<lparr>outcomeId = 1, stepId = 1\<rparr>, timerSeconds = 125,
      stepNotes = Map.empty, timeBank = 15, newOutcome = [],
      newStep = \<lparr>form_title = [], form_estimatedMin = []\<rparr>,
      addingStepTo = None, notification = None\<rparr>"

definition example_low_bank :: app_state where
  "example_low_bank = example_running\<lparr>timeBank := 5\<rparr>"

definition not_an_array_document :: document where
  "not_an_array_document =
     \<lparr>doc_outcomes = JStr ''not-an-array'', doc_stepNotes = None, doc_timeBank = None,
      exportDate = [], version = []\<rparr>"

text \<open>The step form filled in with a title and the estimate \<open>0\<close>, and with the estimate \<open>.5\<close>.\<close>

definition example_zero_estimate :: app_state where
  "example_zero_estimate =
     initial_state\<lparr>newStep := \<lparr>form_title = ''Stretch'', form_estimatedMin = ''0''\<rparr>,
                   addingStepTo := Some 1\<rparr>"

definition example_fraction_estimate :: app_state where
  "example_fraction_estimate =
     initial_state\<lparr>newStep := \<lparr>form_title = ''Stretch'', form_estimatedMin = ''.5''\<rparr>,
                   addingStepTo := Some 1\<rparr>"

text \<open>The step form with an estimate of 309 digits, which is beyond every finite double.\<close>

definition example_huge_estimate :: app_state where
  "example_huge_estimate =
     initial_state\<lparr>newStep := \<lparr>form_title = ''Stretch'',
                                     form_estimatedMin = replicate 309 CHR ''9''\<rparr>,
                   addingStepTo := Some 1\<rparr>"

text \<open>A document whose only step is not completed and yet carries actual minutes.\<close>

definition unfinished_with_actual_document :: document where
  "unfinished_with_actual_document =
     \<lparr>doc_outcomes = JArray
        [\<lparr>outcome_id = 1, outcome_title = ''Design Client Logo'', steps =
           [\<lparr>step_id = 1, step_title = ''Refine chosen concept'', estimatedMin = Num 45,
              actualMin = Some 5, completed = False, timeSpent = Some 0\<rparr>]\<rparr>],
      doc_stepNotes = None, doc_timeBank = None,
      exportDate = ''2025-01-01T00:00:00.000Z'', version = ''1.0''\<rparr>"

text \<open>
  A browser whose store takes every write, the same browser with site data blocked, and
  stores that hold nothing.
\<close>

definition example_browser :: "string browser" where
  "example_browser =
     \<lparr>localStorage_property = Storage, setItem_ok = (\<lambda>k v. True), stringify = (\<lambda>v. Some v)\<rparr>"

definition blocked_browser :: "string browser" where
  "blocked_browser = example_browser\<lparr>localStorage_property := AccessDenied\<rparr>"

definition empty_stores :: "string stores" where
  "empty_stores = \<lparr>localStorage = Map.empty, memoryStorage = Map.empty\<rparr>"

section \<open>Arithmetic of the step values\<close>

lemma js_add_not_Null: "js_add a b \<noteq> Null"
  by (cases a; cases b) (auto simp: js_add_def)

lemma js_add_assoc: "js_add (js_add a b) c = js_add a (js_add b c)"
  by (cases a; cases b; cases c) (auto simp: js_add_def)

lemma js_add_zero_right: "a \<noteq> Null \<Longrightarrow> js_add a (Num 0) = a"
  by (cases a) (auto simp: js_add_def)

lemma js_add_zero_left: "a \<noteq> Null \<Longrightarrow> js_add (Num 0) a = a"
  by (cases a) (auto simp: js_add_def)

lemma sum_numvals_not_Null: "sum_numvals xs \<noteq> Null"
  by (cases xs) (auto simp: js_add_not_Null)

text \<open>A \<open>reduce\<close> that adds up from a number is the sum of the list added to that number.\<close>

lemma foldl_js_add:
  assumes "acc \<noteq> Null"
  shows "foldl (\<lambda>sum x. js_add sum (f x)) acc xs = js_add acc (sum_numvals (map f xs))"
  using assms
  by (induction xs arbitrary: acc) (auto simp: js_add_zero_right js_add_not_Null js_add_assoc)

lemma js_sub_sums:
  "js_sub (js_add a b) (js_add (Num c) d) = js_add (js_sub a (Num c)) (js_sub b d)"
  by (cases a; cases b; cases d) (auto simp: js_add_def js_sub_def)

text \<open>Subtracting \<open>actualMin || 0\<close> is subtracting \<open>actualMin\<close>, since \<open>null\<close> counts as \<open>0\<close>.\<close>

lemma js_sub_or_zero: "js_sub a (Num (or_zero x)) = js_sub a (nullable x)"
  by (cases a; cases x) (auto simp: js_sub_def or_zero_def nullable_def)

lemma sub_of_sums:
  "js_sub (sum_numvals (map estimatedMin cs))
          (sum_numvals (map (\<lambda>st. Num (or_zero (actualMin st))) cs))
   = sum_numvals (map (\<lambda>st. js_sub (estimatedMin st) (nullable (actualMin st))) cs)"
  by (induction cs) (simp_all add: js_sub_sums js_sub_or_zero js_sub_def [of "Num 0"])

lemma sum_filter_completed:
  "sum_numvals (map (\<lambda>st. js_sub (estimatedMin st) (nullable (actualMin st))) (filter completed xs))
   = sum_numvals (map spec_step_balance xs)"
  by (induction xs) (auto simp: spec_step_balance_def js_add_zero_left sum_numvals_not_Null)

section \<open>Balances\<close>

lemma balance_no_completed: "filter completed (steps outc) = [] \<Longrightarrow> balance outc = Num 0"
  by (simp add: balance_def completedSteps_def)

lemma balance_refines: "balance outc = spec_outcome_balance outc"
proof (cases "completedSteps outc = []")
  case True
  then have "sum_numvals (map spec_step_balance (steps outc)) = Num 0"
    unfolding completedSteps_def using sum_filter_completed [of "steps outc"] by simp
  with True show ?thesis
    by (simp add: balance_def spec_outcome_balance_def)
next
  case False
  then show ?thesis
    by (simp add: balance_def spec_outcome_balance_def estimatedForCompleted_def
        actualForCompleted_def reduce_def foldl_js_add js_add_zero_left sum_numvals_not_Null
        sub_of_sums completedSteps_def sum_filter_completed Let_def)
qed

lemma reduce_total:
  "acc \<noteq> Null \<Longrightarrow>
   foldl (\<lambda>total outc.
            let cs = completedSteps outc in
            if length cs = 0 then total
            else js_add total (js_sub (estimatedForCompleted cs) (actualForCompleted cs))) acc os
   = js_add acc (sum_numvals (map balance os))"
proof (induction os arbitrary: acc)
  case Nil
  then show ?case by (simp add: js_add_zero_right)
next
  case (Cons o1 os)
  show ?case
  proof (cases "length (completedSteps o1) = 0")
    case True
    then have "balance o1 = Num 0" by (simp add: balance_def)
    with True Cons show ?thesis
      by (simp add: Let_def js_add_zero_left sum_numvals_not_Null)
  next
    case False
    then have b: "balance o1 =
        js_sub (estimatedForCompleted (completedSteps o1)) (actualForCompleted (completedSteps o1))"
      by (simp add: balance_def Let_def)
    have "js_add acc (balance o1) \<noteq> Null" by (rule js_add_not_Null)
    from Cons.IH [OF this] False b show ?thesis
      by (simp add: Let_def js_add_assoc)
  qed
qed

lemma globalBalance_sum: "globalBalance os tb = js_add (sum_numvals (map balance os)) (Num tb)"
proof -
  have "globalBalance os tb = js_add (js_add (Num 0) (sum_numvals (map balance os))) (Num tb)"
    unfolding globalBalance_def reduce_def Let_def
    by (subst reduce_total [unfolded Let_def]) simp_all
  then show ?thesis
    by (simp add: js_add_zero_left sum_numvals_not_Null)
qed

text \<open>Where every estimate is \<open>null\<close> or an integer the balances are sums of integers.\<close>

lemma sum_numvals_ints:
  "(\<And>x. x \<in> set xs \<Longrightarrow> f x = Num (g x)) \<Longrightarrow> sum_numvals (map f xs) = Num (sum_list (map g xs))"
  by (induction xs) (simp_all add: js_add_def)

lemma spec_step_balance_int:
  "finite_or_null (estimatedMin st) \<Longrightarrow>
   spec_step_balance st
     = Num (if completed st then int_of (estimatedMin st) - or_zero (actualMin st) else 0)"
  by (cases "estimatedMin st"; cases "actualMin st")
     (simp_all add: spec_step_balance_def js_sub_def nullable_def int_of_def or_zero_def
        finite_or_null_def)

lemma sum_list_if_filter:
  "sum_list (map (\<lambda>x. if P x then (h x :: int) else 0) xs) = sum_list (map h (filter P xs))"
  by (induction xs) simp_all

lemma balance_integer_sum:
  assumes "list_all (\<lambda>st. finite_or_null (estimatedMin st)) (steps outc)"
  shows "balance outc
     = Num (\<Sum>st\<leftarrow>filter completed (steps outc). int_of (estimatedMin st) - or_zero (actualMin st))"
proof -
  have "sum_numvals (map spec_step_balance (steps outc))
     = Num (sum_list (map (\<lambda>st. if completed st
                                   then int_of (estimatedMin st) - or_zero (actualMin st) else 0)
                          (steps outc)))"
    using assms by (intro sum_numvals_ints spec_step_balance_int) (simp add: list_all_iff)
  then show ?thesis
    by (simp only: balance_refines spec_outcome_balance_def sum_list_if_filter)
qed

lemma globalBalance_integer_sum:
  assumes "estimates_finite os"
  shows "globalBalance os tb
     = Num ((\<Sum>outc\<leftarrow>os. \<Sum>st\<leftarrow>filter completed (steps outc).
                int_of (estimatedMin st) - or_zero (actualMin st)) + tb)"
proof -
  have "sum_numvals (map balance os)
     = Num (\<Sum>outc\<leftarrow>os. \<Sum>st\<leftarrow>filter completed (steps outc).
                int_of (estimatedMin st) - or_zero (actualMin st))"
    using assms
    by (intro sum_numvals_ints balance_integer_sum) (simp add: estimates_finite_def list_all_iff)
  then show ?thesis
    by (simp add: globalBalance_sum js_add_def)
qed

text \<open>
  C1.  The global balance is the sum of the per-outcome balances plus the time bank; the
  balance of an outcome is the sum over its steps of \<open>estimatedMin - actualMin\<close> for a
  completed step and \<open>0\<close> for an incomplete one, so it is \<open>0\<close> for an outcome with no
  completed step.  Both are functions of the outcome list and the time bank they are given.
  Where every estimate is \<open>null\<close> or an integer the global balance is the integer sum of
  \<open>estimatedMin - actualMin\<close> over the completed steps of all outcomes, plus the time bank.
\<close>

theorem global_balance_is_sum_of_balances:
  "globalBalance os tb = js_add (sum_numvals (map balance os)) (Num tb)
   \<and> globalBalance os tb = spec_global_balance os tb
   \<and> balance outc = spec_outcome_balance outc
   \<and> (filter completed (steps outc) = [] \<longrightarrow> balance outc = Num 0)
   \<and> (estimates_finite os \<longrightarrow>
        globalBalance os tb
          = Num ((\<Sum>outc\<leftarrow>os. \<Sum>st\<leftarrow>filter completed (steps outc).
                     int_of (estimatedMin st) - or_zero (actualMin st)) + tb))"
proof -
  have m: "map balance os = map spec_outcome_balance os"
    by (simp add: balance_refines)
  have "globalBalance os tb = spec_global_balance os tb"
    by (simp only: globalBalance_sum spec_global_balance_def m)
  moreover have "balance outc = spec_outcome_balance outc"
    by (rule balance_refines)
  moreover have "filter completed (steps outc) = [] \<longrightarrow> balance outc = Num 0"
    by (simp add: balance_no_completed)
  ultimately show ?thesis
    using globalBalance_sum [of os tb] globalBalance_integer_sum [of os tb] by blast
qed

theorem global_balance_is_sum_of_balances_witness:
  "filter completed (steps (hd DEFAULT_OUTCOMES)) = []
   \<and> estimates_finite DEFAULT_OUTCOMES
   \<and> estimates_finite (outcomes (markStepDone example_running))
   \<and> balance (hd DEFAULT_OUTCOMES) = Num 0
   \<and> globalBalance DEFAULT_OUTCOMES 15 = Num 15
   \<and> globalBalance (outcomes (markStepDone example_running)) 15 = Num 52"
  using global_balance_is_sum_of_balances [of DEFAULT_OUTCOMES 15 "hd DEFAULT_OUTCOMES"]
    global_balance_is_sum_of_balances [of "outcomes (markStepDone example_running)" 15
      "hd (outcomes (markStepDone example_running))"]
  by (simp add: DEFAULT_OUTCOMES_def example_running_def markStepDone_def showNotification_def
      balance_def completedSteps_def estimatedForCompleted_def actualForCompleted_def reduce_def
      spec_global_balance_def spec_outcome_balance_def spec_step_balance_def nullable_def
      estimates_finite_def finite_or_null_def int_of_def js_add_def js_sub_def or_zero_def
      ceilMinutes_def Let_def)

section \<open>Timer\<close>

text \<open>The conversion rounds up: the result is the least number of whole minutes that covers the seconds.\<close>

lemma ceilMinutes_neg_div: "ceilMinutes n = - ((- n) div 60)"
proof -
  have "\<lceil>real_of_int n / real_of_int 60\<rceil> = - ((- n) div 60)"
    by (simp only: ceiling_divide_eq_div)
  then show ?thesis by (simp add: ceilMinutes_def)
qed

lemma ceilMinutes_bounds: "60 * (ceilMinutes n - 1) < n \<and> n \<le> 60 * ceilMinutes n"
proof -
  define q where "q = (- n) div 60"
  define r where "r = (- n) mod 60"
  have "- n = 60 * q + r" by (simp add: q_def r_def)
  moreover have "0 \<le> r" "r < 60" by (simp_all add: r_def)
  moreover have "ceilMinutes n = - q" by (simp add: q_def ceilMinutes_neg_div)
  ultimately show ?thesis by simp
qed

lemma pauseTimer_clears_timer:
  "activeTimer (pauseTimer s) = None \<and> timerSeconds (pauseTimer s) = 0"
  by (simp add: pauseTimer_def Let_def split: option.splits)

lemma markStepDone_clears_timer:
  "activeTimer (markStepDone s) = None \<and> timerSeconds (markStepDone s) = 0"
  by (simp add: markStepDone_def Let_def showNotification_def split: option.splits)

lemma pauseTimer_step:
  assumes "i < length (outcomes s)" "j < length (steps (outcomes s ! i))"
  shows "steps (outcomes (pauseTimer s) ! i) ! j =
         (if isActive s (outcomes s ! i) (steps (outcomes s ! i) ! j)
          then (steps (outcomes s ! i) ! j)
                 \<lparr>timeSpent := Some (or_zero (timeSpent (steps (outcomes s ! i) ! j))
                                      + ceilMinutes (timerSeconds s))\<rparr>
          else steps (outcomes s ! i) ! j)"
  using assms
  by (simp add: pauseTimer_def Let_def isActive_def split: option.splits)

lemma markStepDone_step:
  assumes "i < length (outcomes s)" "j < length (steps (outcomes s ! i))"
  shows "steps (outcomes (markStepDone s) ! i) ! j =
         (if isActive s (outcomes s ! i) (steps (outcomes s ! i) ! j)
          then (steps (outcomes s ! i) ! j)
                 \<lparr>actualMin := Some (or_zero (timeSpent (steps (outcomes s ! i) ! j))
                                      + ceilMinutes (timerSeconds s)),
                  completed := True, timeSpent := Some 0\<rparr>
          else steps (outcomes s ! i) ! j)"
  using assms
  by (simp add: markStepDone_def Let_def isActive_def showNotification_def split: option.splits)

text \<open>
  C2.  Seconds become minutes by the ceiling of seconds over 60.  Pausing adds that many
  minutes to the \<open>timeSpent\<close> of the active step; completing stores \<open>timeSpent\<close> plus that
  many minutes as \<open>actualMin\<close>, marks the step completed and sets \<open>timeSpent\<close> to \<open>0\<close>.
  With \<open>timeSpent = 5\<close> and 125 seconds elapsed, completing gives \<open>actualMin = 8\<close> and
  \<open>timeSpent = 0\<close>.
\<close>

theorem timer_seconds_to_minutes_is_ceiling:
  assumes "i < length (outcomes s)" and "j < length (steps (outcomes s ! i))"
    and "isActive s (outcomes s ! i) (steps (outcomes s ! i) ! j)"
  shows "ceilMinutes (timerSeconds s) = \<lceil>real_of_int (timerSeconds s) / 60\<rceil>
    \<and> steps (outcomes (pauseTimer s) ! i) ! j =
        (steps (outcomes s ! i) ! j)
          \<lparr>timeSpent := Some (or_zero (timeSpent (steps (outcomes s ! i) ! j))
                               + \<lceil>real_of_int (timerSeconds s) / 60\<rceil>)\<rparr>
    \<and> steps (outcomes (markStepDone s) ! i) ! j =
        (steps (outcomes s ! i) ! j)
          \<lparr>actualMin := Some (or_zero (timeSpent (steps (outcomes s ! i) ! j))
                               + \<lceil>real_of_int (timerSeconds s) / 60\<rceil>),
           completed := True, timeSpent := Some 0\<rparr>
    \<and> (timeSpent (steps (outcomes s ! i) ! j) = Some 5 \<and> timerSeconds s = 125 \<longrightarrow>
          actualMin (steps (outcomes (markStepDone s) ! i) ! j) = Some 8
        \<and> timeSpent (steps (outcomes (markStepDone s) ! i) ! j) = Some 0
        \<and> completed (steps (outcomes (markStepDone s) ! i) ! j))"
proof -
  have p: "steps (outcomes (pauseTimer s) ! i) ! j =
        (steps (outcomes s ! i) ! j)
          \<lparr>timeSpent := Some (or_zero (timeSpent (steps (outcomes s ! i) ! j))
                               + ceilMinutes (timerSeconds s))\<rparr>"
    using pauseTimer_step [OF assms(1,2)] assms(3) by simp
  have d: "steps (outcomes (markStepDone s) ! i) ! j =
        (steps (outcomes s ! i) ! j)
          \<lparr>actualMin := Some (or_zero (timeSpent (steps (outcomes s ! i) ! j))
                               + ceilMinutes (timerSeconds s)),
           completed := True, timeSpent := Some 0\<rparr>"
    using markStepDone_step [OF assms(1,2)] assms(3) by simp
  have e: "timeSpent (steps (outcomes s ! i) ! j) = Some 5 \<and> timerSeconds s = 125 \<longrightarrow>
          actualMin (steps (outcomes (markStepDone s) ! i) ! j) = Some 8
        \<and> timeSpent (steps (outcomes (markStepDone s) ! i) ! j) = Some 0
        \<and> completed (steps (outcomes (markStepDone s) ! i) ! j)"
    by (simp add: d or_zero_def ceilMinutes_def)
  from p d e show ?thesis
    by (simp only: ceilMinutes_def simp_thms)
qed

theorem timer_seconds_to_minutes_is_ceiling_witness:
  "0 < length (outcomes example_running)
   \<and> 0 < length (steps (outcomes example_running ! 0))
   \<and> isActive example_running (outcomes example_running ! 0) (steps (outcomes example_running ! 0) ! 0)
   \<and> timeSpent (steps (outcomes example_running ! 0) ! 0) = Some 5
   \<and> timerSeconds example_running = 125
   \<and> timeSpent (steps (outcomes (pauseTimer example_running) ! 0) ! 0) = Some 8
   \<and> actualMin (steps (outcomes (markStepDone example_running) ! 0) ! 0) = Some 8
   \<and> timeSpent (steps (outcomes (markStepDone example_running) ! 0) ! 0) = Some 0
   \<and> completed (steps (outcomes (markStepDone example_running) ! 0) ! 0)"
proof -
  have h: "0 < length (outcomes example_running)"
    "0 < length (steps (outcomes example_running ! 0))"
    "isActive example_running (outcomes example_running ! 0) (steps (outcomes example_running ! 0) ! 0)"
    by (simp_all add: example_running_def isActive_def)
  have v: "timeSpent (steps (outcomes example_running ! 0) ! 0) = Some 5"
    "timerSeconds example_running = 125"
    by (simp_all add: example_running_def)
  from timer_seconds_to_minutes_is_ceiling [OF h] h v show ?thesis
    by (simp add: or_zero_def)
qed

text \<open>
  C3.  Borrowing succeeds exactly when a timer is active and the bank holds at least 10
  minutes; then the bank loses 10 and the elapsed seconds gain 600.  Otherwise the bank,
  the timer and the outcomes stay as they are and a warning is shown.
\<close>

theorem addTime_borrows_iff_timer_and_bank:
  "(notification (addTime s) = Some (''Added 10 minutes from time bank'', ''success'')
      \<longleftrightarrow> activeTimer s \<noteq> None \<and> 10 \<le> timeBank s)
   \<and> (activeTimer s \<noteq> None \<and> 10 \<le> timeBank s \<longrightarrow>
        addTime s = s\<lparr>timeBank := timeBank s - 10, timerSeconds := timerSeconds s + 600,
                       notification := Some (''Added 10 minutes from time bank'', ''success'')\<rparr>)
   \<and> (\<not> (activeTimer s \<noteq> None \<and> 10 \<le> timeBank s) \<longrightarrow>
        addTime s = s\<lparr>notification := Some (''Not enough time in bank'', ''warning'')\<rparr>)"
  by (simp add: addTime_def showNotification_def)

theorem addTime_borrows_iff_timer_and_bank_witness:
  "(activeTimer example_running \<noteq> None \<and> 10 \<le> timeBank example_running)
   \<and> timeBank (addTime example_running) = 5
   \<and> timerSeconds (addTime example_running) = timerSeconds example_running + 600
   \<and> activeTimer (addTime example_running) = activeTimer example_running
   \<and> \<not> (activeTimer example_low_bank \<noteq> None \<and> 10 \<le> timeBank example_low_bank)
   \<and> timeBank (addTime example_low_bank) = 5
   \<and> timerSeconds (addTime example_low_bank) = timerSeconds example_low_bank
   \<and> activeTimer (addTime example_low_bank) = activeTimer example_low_bank"
proof -
  have a: "activeTimer example_running \<noteq> None \<and> 10 \<le> timeBank example_running"
    by (simp add: example_running_def)
  have b: "\<not> (activeTimer example_low_bank \<noteq> None \<and> 10 \<le> timeBank example_low_bank)"
    by (simp add: example_low_bank_def example_running_def)
  have "timeBank example_running = 15" "timeBank example_low_bank = 5"
    by (simp_all add: example_low_bank_def example_running_def)
  with a b addTime_borrows_iff_timer_and_bank [of example_running]
    addTime_borrows_iff_timer_and_bank [of example_low_bank]
  show ?thesis by simp
qed

section \<open>Import of a malformed document\<close>

lemma isArray_truthy: "isArray v \<Longrightarrow> truthy v"
  by (cases v) simp_all

lemma importData_parse_failure:
  "importData (FileText Throws) s
     = s\<lparr>notification := Some (''Import failed: Invalid file format'', ''error'')\<rparr>"
  by (simp add: importData_def import_try_def showNotification_def)

text \<open>
  C4.  A parsed document is imported only when its \<open>outcomes\<close> property is an array.  When
  it is missing or anything else, as in \<open>{outcomes: "not-an-array"}\<close>, the import fails
  with an error notice and the outcomes, the notes, the time bank and the timer are the
  ones from before.
\<close>

theorem importData_requires_outcomes_array:
  "(notification (importData (FileText (Data d)) s) = Some (''Data imported successfully'', ''success'')
      \<longleftrightarrow> doc_outcomes d \<noteq> Undefined \<and> isArray (doc_outcomes d))
   \<and> (\<not> (doc_outcomes d \<noteq> Undefined \<and> isArray (doc_outcomes d)) \<longrightarrow>
        importData (FileText (Data d)) s
          = s\<lparr>notification := Some (''Import failed: Invalid file format'', ''error'')\<rparr>
      \<and> outcomes (importData (FileText (Data d)) s) = outcomes s
      \<and> stepNotes (importData (FileText (Data d)) s) = stepNotes s
      \<and> timeBank (importData (FileText (Data d)) s) = timeBank s)"
  by (cases "doc_outcomes d")
     (simp_all add: importData_def import_try_def showNotification_def)

theorem importData_requires_outcomes_array_witness:
  "\<not> (doc_outcomes not_an_array_document \<noteq> Undefined \<and> isArray (doc_outcomes not_an_array_document))
   \<and> outcomes (importData (FileText (Data not_an_array_document)) example_running)
       = outcomes example_running
   \<and> stepNotes (importData (FileText (Data not_an_array_document)) example_running)
       = stepNotes example_running
   \<and> timeBank (importData (FileText (Data not_an_array_document)) example_running)
       = timeBank example_running
   \<and> notification (importData (FileText (Data not_an_array_document)) example_running)
       = Some (''Import failed: Invalid file format'', ''error'')"
proof -
  have h: "\<not> (doc_outcomes not_an_array_document \<noteq> Undefined
               \<and> isArray (doc_outcomes not_an_array_document))"
    by (simp add: not_an_array_document_def)
  from importData_requires_outcomes_array [of not_an_array_document example_running] h
  show ?thesis by simp
qed

section \<open>Frame of the timer and of the deletions\<close>

lemma tick_keeps_outcomes: "outcomes (tick s) = outcomes s"
  by (simp add: tick_def)

text \<open>
  C9.  \<open>startTimer\<close> changes the timer only: the outcome list is the one from before and
  the elapsed seconds are \<open>0\<close>, whatever timer ran before and however long; the seconds
  of that timer reach no step.
\<close>

theorem startTimer_resets_seconds_keeps_outcomes:
  "outcomes (startTimer oid sid s) = outcomes s
   \<and> timerSeconds (startTimer oid sid s) = 0
   \<and> activeTimer (startTimer oid sid s) = Some \<lparr>outcomeId = oid, stepId = sid\<rparr>
   \<and> startTimer oid sid s
       = s\<lparr>activeTimer := Some \<lparr>outcomeId = oid, stepId = sid\<rparr>, timerSeconds := 0\<rparr>"
  by (simp add: startTimer_def)

text \<open>
  C10.  \<open>removeStep\<close> and \<open>removeOutcome\<close> leave the active timer and its elapsed seconds as
  they are.  Deleting the step the timer points at, or the outcome that holds it, leaves a
  timer that points at no step of the list.
\<close>

theorem remove_keeps_timer_which_may_dangle:
  "activeTimer (removeStep oid sid s) = activeTimer s
   \<and> timerSeconds (removeStep oid sid s) = timerSeconds s
   \<and> activeTimer (removeOutcome confirmed oid s) = activeTimer s
   \<and> timerSeconds (removeOutcome confirmed oid s) = timerSeconds s
   \<and> (\<exists>s' t. activeTimer s' = Some t \<and> timer_target_exists s'
          \<and> activeTimer (removeStep (outcomeId t) (stepId t) s') = Some t
          \<and> \<not> timer_target_exists (removeStep (outcomeId t) (stepId t) s')
          \<and> activeTimer (removeOutcome True (outcomeId t) s') = Some t
          \<and> \<not> timer_target_exists (removeOutcome True (outcomeId t) s'))"
proof -
  have frame: "activeTimer (removeStep oid sid s) = activeTimer s
   \<and> timerSeconds (removeStep oid sid s) = timerSeconds s
   \<and> activeTimer (removeOutcome confirmed oid s) = activeTimer s
   \<and> timerSeconds (removeOutcome confirmed oid s) = timerSeconds s"
    by (simp add: removeStep_def removeOutcome_def showNotification_def)
  let ?t = "\<lparr>outcomeId = 1, stepId = 1\<rparr>"
  have "activeTimer example_running = Some ?t \<and> timer_target_exists example_running
          \<and> activeTimer (removeStep (outcomeId ?t) (stepId ?t) example_running) = Some ?t
          \<and> \<not> timer_target_exists (removeStep (outcomeId ?t) (stepId ?t) example_running)
          \<and> activeTimer (removeOutcome True (outcomeId ?t) example_running) = Some ?t
          \<and> \<not> timer_target_exists (removeOutcome True (outcomeId ?t) example_running)"
    by (simp add: example_running_def timer_target_exists_def isActive_def removeStep_def
        removeOutcome_def showNotification_def)
  then have "\<exists>s' t. activeTimer s' = Some t \<and> timer_target_exists s'
          \<and> activeTimer (removeStep (outcomeId t) (stepId t) s') = Some t
          \<and> \<not> timer_target_exists (removeStep (outcomeId t) (stepId t) s')
          \<and> activeTimer (removeOutcome True (outcomeId t) s') = Some t
          \<and> \<not> timer_target_exists (removeOutcome True (outcomeId t) s')"
    by blast
  with frame show ?thesis by blast
qed

section \<open>Persistence adapter\<close>

text \<open>
  When the primary write succeeds the memory map holds the value, the store holds the
  serialised value, and the call returns \<open>true\<close>.
\<close>

lemma storage_set_primary:
  assumes "primary_write_succeeds env key val st"
  shows "fst (storage_set env key val st) = Inr True
    \<and> memoryStorage (snd (storage_set env key val st)) key = Some val
    \<and> localStorage (snd (storage_set env key val st)) key = stringify env val"
  using assms
  by (auto simp: primary_write_succeeds_def storage_set_def try_catch_def set_body_def
      memory_set_def ls_setItem_def ls_removeItem_def isStorageAvailable_def
      split: option.splits if_splits)

lemma storage_set_primary_example:
  "primary_write_succeeds example_browser ''timebalance-timebank'' ''15'' empty_stores
   \<and> fst (storage_set example_browser ''timebalance-timebank'' ''15'' empty_stores) = Inr True
   \<and> memoryStorage (snd (storage_set example_browser ''timebalance-timebank'' ''15'' empty_stores))
        ''timebalance-timebank'' = Some ''15''"
proof -
  have h: "primary_write_succeeds example_browser ''timebalance-timebank'' ''15'' empty_stores"
    by (simp add: primary_write_succeeds_def example_browser_def empty_stores_def isBrowser_def
        isStorageAvailable_def ls_setItem_def)
  with storage_set_primary [OF h] show ?thesis by simp
qed

text \<open>
  The exceptions of \<open>JSON.stringify\<close> and \<open>setItem\<close> are caught: where the property can be
  read the call returns a boolean, \<open>false\<close> only where there is no store object, and
  inside a browser the memory map takes the value.
\<close>

lemma storage_set_returns_when_readable:
  "localStorage_property env \<noteq> AccessDenied \<Longrightarrow> \<exists>b. fst (storage_set env key val st) = Inr b"
  by (cases "localStorage_property env")
     (auto simp: storage_set_def isBrowser_def try_catch_def set_body_def set_fallback_def
        memory_set_def ls_setItem_def isStorageAvailable_def split: option.splits)

lemma storage_set_false_iff:
  "fst (storage_set env key val st) = Inr False \<longleftrightarrow> isBrowser env = Inr False"
  by (cases "localStorage_property env")
     (auto simp: storage_set_def isBrowser_def try_catch_def set_body_def set_fallback_def
        memory_set_def ls_setItem_def isStorageAvailable_def split: option.splits)

lemma storage_set_memory:
  "isBrowser env = Inr True \<Longrightarrow> memoryStorage (snd (storage_set env key val st)) key = Some val"
  by (cases "localStorage_property env")
     (auto simp: storage_set_def isBrowser_def try_catch_def set_body_def set_fallback_def
        memory_set_def ls_setItem_def ls_removeItem_def isStorageAvailable_def
        split: option.splits)

text \<open>
  The read of \<open>window.localStorage\<close> in \<open>isBrowser\<close> is outside every \<open>try\<close> block: where
  it throws, \<open>storage.set\<close> throws, and in no other case.
\<close>

lemma storage_set_access_denied:
  "localStorage_property env = AccessDenied \<Longrightarrow>
   storage_set env key val st = (Inl SecurityError, st)"
  by (simp add: storage_set_def isBrowser_def)

lemma storage_set_throws_iff:
  "(\<exists>e. fst (storage_set env key val st) = Inl e) \<longleftrightarrow> localStorage_property env = AccessDenied"
proof
  assume "\<exists>e. fst (storage_set env key val st) = Inl e"
  then obtain e where e: "fst (storage_set env key val st) = Inl e" ..
  show "localStorage_property env = AccessDenied"
  proof (rule ccontr)
    assume "localStorage_property env \<noteq> AccessDenied"
    from storage_set_returns_when_readable [OF this]
    obtain b where "fst (storage_set env key val st) = Inr b" ..
    with e show False by simp
  qed
next
  assume "localStorage_property env = AccessDenied"
  then show "\<exists>e. fst (storage_set env key val st) = Inl e"
    by (simp add: storage_set_access_denied)
qed

text \<open>
  C8.  The mirroring holds (\<open>storage_set_primary\<close>), but a failure can reach the caller as
  an exception: in a browser that denies access to \<open>window.localStorage\<close>, \<open>storage.set\<close>
  throws the \<open>SecurityError\<close> of \<open>isBrowser\<close> and writes nothing.
\<close>

theorem storage_set_throws_when_access_denied:
  "isBrowser blocked_browser = Inl SecurityError
   \<and> storage_set blocked_browser ''timebalance-timebank'' ''15'' empty_stores
       = (Inl SecurityError, empty_stores)"
  by (simp add: storage_set_def isBrowser_def blocked_browser_def example_browser_def)

section \<open>Doubles\<close>

text \<open>
  An integer from \<open>2 ^ 1024\<close> on has no finite double, and the integer of a finite result
  of \<open>parseInt\<close> is below that bound; an estimate of 309 nines parses to \<open>Infinity\<close>.
\<close>

lemma bitlen_0: "bitlen 0 = 0"
  by (subst bitlen.simps) simp

lemma bitlen_pos: "0 < n \<Longrightarrow> bitlen n = Suc (bitlen (n div 2))"
  by (subst bitlen.simps) simp

lemma bitlen_bounds: "0 < n \<Longrightarrow> 2 ^ (bitlen n - 1) \<le> n \<and> n < 2 ^ bitlen n"
proof (induction n rule: bitlen.induct)
  case (1 n)
  show ?case
  proof (cases "n div 2 = 0")
    case True
    with 1 have "n = 1" by (simp add: div_eq_0_iff)
    then show ?thesis by (simp add: bitlen_pos bitlen_0)
  next
    case False
    then have pos: "0 < n div 2" by simp
    from 1 have n0: "n \<noteq> 0" by simp
    from "1.IH" [OF n0 pos]
    have lo: "2 ^ (bitlen (n div 2) - 1) \<le> n div 2" and hi: "n div 2 < 2 ^ bitlen (n div 2)"
      by simp_all
    have b: "bitlen n = Suc (bitlen (n div 2))" using n0 by (simp add: bitlen_pos)
    have bp: "0 < bitlen (n div 2)" using pos by (simp add: bitlen_pos)
    have "2 * 2 ^ (bitlen (n div 2) - 1) \<le> n" using lo by simp
    moreover have "2 * 2 ^ (bitlen (n div 2) - 1) = (2::nat) ^ bitlen (n div 2)"
      using bp by (cases "bitlen (n div 2)") simp_all
    moreover have "n < 2 * 2 ^ bitlen (n div 2)" using hi by simp
    ultimately show ?thesis by (simp add: b)
  qed
qed


lemma toDouble_overflow:
  assumes "2 ^ 1024 \<le> \<bar>n\<bar>"
  shows "toDouble n = (if n < 0 then NegInfinity else PosInfinity)"
proof -
  define a where "a = nat \<bar>n\<bar>"
  define e where "e = bitlen a - 53"
  define q where "q = a div 2 ^ e"
  define B :: nat where "B = 2 ^ 1024"
  have a_big: "B \<le> a"
    using assms by (simp add: a_def B_def le_nat_iff)
  have B_pos: "0 < B" by (simp add: B_def)
  with a_big have a_pos: "0 < a" by linarith
  from bitlen_bounds [OF a_pos] have lo: "2 ^ (bitlen a - 1) \<le> a" and hi: "a < 2 ^ bitlen a"
    by simp_all
  from a_big hi have "(2::nat) ^ 1024 < 2 ^ bitlen a" unfolding B_def by linarith
  then have bl: "1024 < bitlen a" by (simp only: power_strict_increasing_iff rel_simps)
  then have e_eq: "bitlen a - 1 = 52 + e" by (simp add: e_def)
  have "2 ^ 52 * 2 ^ e \<le> a" using lo by (simp only: e_eq power_add)
  then have q_big: "2 ^ 52 \<le> q"
    unfolding q_def by (simp only: less_eq_div_iff_mult_less_eq zero_less_power zero_less_numeral)
  have "1024 \<le> 52 + e" using bl e_eq by linarith
  then have "(2::nat) ^ 1024 \<le> 2 ^ (52 + e)"
    by (intro power_increasing) simp_all
  then have "B \<le> 2 ^ 52 * 2 ^ e" by (simp only: B_def power_add)
  also have "\<dots> \<le> q * 2 ^ e" using q_big by (rule mult_le_mono1)
  finally have m1: "B \<le> q * 2 ^ e" .
  also have "q * 2 ^ e \<le> (q + 1) * 2 ^ e" by (rule mult_le_mono1) simp
  finally have m2: "B \<le> (q + 1) * 2 ^ e" .
  have "(2::int) ^ 53 \<le> 2 ^ 1024" by (intro power_increasing) simp_all
  with assms have not_small: "\<not> \<bar>n\<bar> < 2 ^ 53" by linarith
  have "toDouble n =
     (let q' = (if 2 ^ e < 2 * (a mod 2 ^ e) \<or> (2 * (a mod 2 ^ e) = 2 ^ e \<and> odd q) then q + 1 else q);
          m = q' * 2 ^ e
      in if B \<le> m then (if n < 0 then NegInfinity else PosInfinity)
         else Num (if n < 0 then - int m else int m))"
    unfolding toDouble_def Let_def a_def e_def q_def B_def using not_small
    by (simp only: if_False)
  with m1 m2 show ?thesis
    by (simp add: Let_def)
qed

lemma toDouble_range:
  assumes "toDouble n = Num m"
  shows "\<bar>m\<bar> < 2 ^ 1024"
proof -
  define B :: nat where "B = 2 ^ 1024"
  define Bi :: int where "Bi = 2 ^ 1024"
  have BBi: "int B = Bi" by (simp only: B_def Bi_def of_nat_power of_nat_numeral)
  have small: "(2::int) ^ 53 < Bi"
    unfolding Bi_def by (intro power_strict_increasing) simp_all
  have "\<bar>m\<bar> < Bi"
  proof (cases "\<bar>n\<bar> < 2 ^ 53")
    case True
    with assms have "m = n" by (simp add: toDouble_def)
    with True small show ?thesis by linarith
  next
    case False
    with assms have "\<exists>k::nat. \<not> B \<le> k \<and> m = (if n < 0 then - int k else int k)"
      unfolding toDouble_def Let_def B_def [symmetric]
      by (simp only: if_False split: if_splits) (simp_all only: numval.inject, blast+)
    then obtain k :: nat where k: "\<not> B \<le> k" "m = (if n < 0 then - int k else int k)"
      by blast
    from k(1) have "int k < int B" by (simp only: not_le of_nat_less_iff)
    with k(2) BBi show ?thesis by (simp split: if_splits)
  qed
  then show ?thesis by (simp only: Bi_def)
qed

lemma parseInt_range:
  assumes "parseInt s = Num n"
  shows "\<bar>n\<bar> < 2 ^ 1024"
proof -
  have "parseInt s = NaN \<or> (\<exists>k. parseInt s = toDouble k)"
    unfolding parseInt_def Let_def by auto
  with assms obtain k where "toDouble k = Num n" by auto
  then show ?thesis by (rule toDouble_range)
qed


lemma digitsValue_nines_aux:
  "foldl (\<lambda>a c. a * 10 + (case digitValue c of None \<Rightarrow> 0 | Some d \<Rightarrow> d)) acc (replicate k CHR ''9'')
     = (acc + 1) * 10 ^ k - 1"
proof (induction k arbitrary: acc)
  case 0
  then show ?case by simp
next
  case (Suc k)
  have "digitValue CHR ''9'' = Some 9" by (simp add: digitValue_def)
  then have "foldl (\<lambda>a c. a * 10 + (case digitValue c of None \<Rightarrow> 0 | Some d \<Rightarrow> d)) acc
               (replicate (Suc k) CHR ''9'')
     = (acc * 10 + 9 + 1) * 10 ^ k - 1"
    by (simp add: Suc.IH)
  also have "(acc * 10 + 9 + 1) * 10 ^ k = (acc + 1) * 10 ^ Suc k"
    by (simp add: algebra_simps)
  finally show ?case .
qed

lemma digitsValue_nines: "digitsValue 10 (replicate k CHR ''9'') = 10 ^ k - 1"
  by (simp add: digitsValue_def digitsValue_nines_aux)

lemma parseInt_nines:
  assumes "0 < k"
  shows "parseInt (replicate k CHR ''9'') = toDouble (int (10 ^ k - 1))"
proof -
  have nine: "\<not> isWhiteSpace CHR ''9''" "isRadixDigit 10 CHR ''9''"
    by (simp_all add: isWhiteSpace_def isRadixDigit_def digitValue_def)
  have ne: "replicate k CHR ''9'' \<noteq> []" using assms by simp
  have hd9: "hd (replicate k CHR ''9'') = CHR ''9''" using assms by (simp add: hd_replicate)
  have nohex: "\<not> (2 \<le> length (replicate k CHR ''9'') \<and> replicate k CHR ''9'' ! 0 = CHR ''0''
                   \<and> (replicate k CHR ''9'' ! 1 = CHR ''x'' \<or> replicate k CHR ''9'' ! 1 = CHR ''X''))"
    using assms by simp
  have dw: "dropWhile isWhiteSpace (replicate k CHR ''9'') = replicate k CHR ''9''"
    using nine(1) by (simp add: dropWhile_replicate)
  have tw: "takeWhile (isRadixDigit 10) (replicate k CHR ''9'') = replicate k CHR ''9''"
    using nine(2) by (simp add: takeWhile_replicate)
  show ?thesis
    unfolding parseInt_def Let_def dw
    using ne hd9 nohex tw by (simp add: digitsValue_nines del: replicate_eq_replicate)
qed


lemma parseInt_309_nines: "parseInt (replicate 309 CHR ''9'') = PosInfinity"
proof -
  have "(2::int) ^ 1024 \<le> \<bar>int (10 ^ 309 - 1)\<bar>" by simp
  from toDouble_overflow [OF this] show ?thesis
    by (simp only: parseInt_nines [of 309, simplified]) simp
qed

section \<open>Input checks of the create operations\<close>

lemma addOutcome_blank_title: "trim (newOutcome s) = [] \<Longrightarrow> addOutcome s = s"
  by (simp add: addOutcome_def)

lemma addStep_blank_title: "trim (form_title (newStep s)) = [] \<Longrightarrow> addStep oid s = s"
  by (simp add: addStep_def)

lemma addStep_empty_estimate: "form_estimatedMin (newStep s) = [] \<Longrightarrow> addStep oid s = s"
  by (simp add: addStep_def)

lemma trim_blank: "list_all isWhiteSpace t \<Longrightarrow> trim t = []"
proof -
  assume "list_all isWhiteSpace t"
  then have "dropWhile isWhiteSpace t = []"
    by (induction t) simp_all
  then show ?thesis by (simp only: trim_def rev.simps dropWhile.simps)
qed

text \<open>
  C5.  \<open>addOutcome\<close> and \<open>addStep\<close> ignore a blank title, and \<open>addStep\<close> ignores an empty
  estimate.  An estimate of \<open>0\<close> or below is not ignored: with the title \<open>Stretch\<close> and the
  estimate \<open>0\<close>, or \<open>-5\<close>, \<open>addStep\<close> appends a step with that estimate to the outcome.
\<close>

theorem addStep_accepts_nonpositive_estimate:
  "parseInt (form_estimatedMin (newStep example_zero_estimate)) = Num 0
   \<and> outcomes (addStep 1 example_zero_estimate) \<noteq> outcomes example_zero_estimate
   \<and> length (steps (hd (outcomes (addStep 1 example_zero_estimate)))) = 5
   \<and> estimatedMin (last (steps (hd (outcomes (addStep 1 example_zero_estimate))))) = Num 0
   \<and> estimatedMin (last (steps (hd (outcomes (addStep 1
        (example_zero_estimate\<lparr>newStep := \<lparr>form_title = ''Stretch'', form_estimatedMin = ''-5''\<rparr>\<rparr>))))))
       = Num (- 5)"
  by (simp add: example_zero_estimate_def initial_state_def DEFAULT_OUTCOMES_def addStep_def
      showNotification_def trim_def isWhiteSpace_def parseInt_def toDouble_def isRadixDigit_def
      digitValue_def digitsValue_def mathMax0_def Let_def)

section \<open>Export and import\<close>

lemma json_numval_id: "finite_or_null v \<Longrightarrow> json_numval v = v"
  by (cases v) (simp_all add: json_numval_def finite_or_null_def)

lemma json_numval_id_iff: "json_numval v = v \<longleftrightarrow> finite_or_null v"
  by (cases v) (simp_all add: json_numval_def finite_or_null_def)

lemma json_step_id: "finite_or_null (estimatedMin st) \<Longrightarrow> json_step st = st"
  by (simp add: json_step_def json_numval_id)

lemma json_outcome_id:
  "list_all (\<lambda>st. finite_or_null (estimatedMin st)) (steps outc) \<Longrightarrow> json_outcome outc = outc"
  by (simp add: json_outcome_def list_all_iff json_step_id map_idI)

lemma json_outcomes_id: "estimates_finite os \<Longrightarrow> map json_outcome os = os"
  by (simp add: estimates_finite_def list_all_iff json_outcome_id map_idI)

lemma import_of_export:
  "importData (FileText (Data (export_document now s))) s'
     = s'\<lparr>outcomes := map json_outcome (outcomes s), stepNotes := stepNotes s,
          timeBank := timeBank s,
          notification := Some (''Data imported successfully'', ''success'')\<rparr>"
  by (simp add: importData_def import_try_def export_document_def showNotification_def or_zero_def)

text \<open>
  The imported outcome list is the exported one exactly when every estimate is \<open>null\<close> or
  an integer; an estimate of 309 digits is \<open>Infinity\<close> and is lost as \<open>NaN\<close> is.
\<close>

lemma json_outcomes_id_iff: "map json_outcome os = os \<longleftrightarrow> estimates_finite os"
proof -
  have st: "json_step st = st \<longleftrightarrow> finite_or_null (estimatedMin st)" for st
  proof
    assume "json_step st = st"
    then have "estimatedMin (json_step st) = estimatedMin st" by simp
    then show "finite_or_null (estimatedMin st)"
      by (simp add: json_step_def json_numval_id_iff)
  qed (rule json_step_id)
  have oc: "json_outcome outc = outc
      \<longleftrightarrow> list_all (\<lambda>st. finite_or_null (estimatedMin st)) (steps outc)" for outc
  proof
    assume "json_outcome outc = outc"
    then have "steps (json_outcome outc) = steps outc" by simp
    then have "map json_step (steps outc) = steps outc" by (simp add: json_outcome_def)
    then have "\<forall>st\<in>set (steps outc). json_step st = st" by (simp only: map_idI map_eq_conv [of json_step "steps outc" "\<lambda>x. x", simplified])
    then show "list_all (\<lambda>st. finite_or_null (estimatedMin st)) (steps outc)"
      by (simp add: list_all_iff st)
  qed (rule json_outcome_id)
  have "map json_outcome os = os \<longleftrightarrow> (\<forall>outc\<in>set os. json_outcome outc = outc)"
    by (rule map_eq_conv [of json_outcome os "\<lambda>x. x", simplified])
  then show ?thesis
    by (simp add: estimates_finite_def list_all_iff oc)
qed

lemma import_of_export_outcomes_iff:
  "outcomes (importData (FileText (Data (export_document now s))) s') = outcomes s
     \<longleftrightarrow> estimates_finite (outcomes s)"
  by (simp add: import_of_export json_outcomes_id_iff)

lemma addStep_huge_estimate:
  "estimatedMin (last (steps (hd (outcomes (addStep 1 example_huge_estimate))))) = PosInfinity"
proof -
  have "form_estimatedMin (newStep example_huge_estimate) = replicate 309 CHR ''9''"
    "form_title (newStep example_huge_estimate) = ''Stretch''"
    "outcomes example_huge_estimate = DEFAULT_OUTCOMES"
    by (simp_all add: example_huge_estimate_def initial_state_def)
  moreover have "trim ''Stretch'' \<noteq> []" "replicate 309 CHR ''9'' \<noteq> []"
    by (simp_all add: trim_def isWhiteSpace_def)
  ultimately show ?thesis
    by (simp add: addStep_def showNotification_def DEFAULT_OUTCOMES_def parseInt_309_nines
        Let_def)
qed

lemma export_import_loses_infinite_estimate:
  "outcomes (importData
      (FileText (Data (export_document now (addStep 1 example_huge_estimate))))
      (addStep 1 example_huge_estimate))
   \<noteq> outcomes (addStep 1 example_huge_estimate)"
proof -
  let ?s = "addStep 1 example_huge_estimate"
  have o: "outcomes ?s \<noteq> []" "steps (hd (outcomes ?s)) \<noteq> []"
    by (simp_all add: example_huge_estimate_def initial_state_def addStep_def showNotification_def
        DEFAULT_OUTCOMES_def trim_def isWhiteSpace_def Let_def)
  have "\<not> finite_or_null (estimatedMin (last (steps (hd (outcomes ?s)))))"
    by (simp add: addStep_huge_estimate finite_or_null_def)
  moreover have "hd (outcomes ?s) \<in> set (outcomes ?s)"
    "last (steps (hd (outcomes ?s))) \<in> set (steps (hd (outcomes ?s)))"
    using o by simp_all
  ultimately have "\<not> estimates_finite (outcomes ?s)"
    unfolding estimates_finite_def list_all_iff by blast
  then show ?thesis by (simp only: import_of_export_outcomes_iff simp_thms)
qed

text \<open>
  C6 as the specification states it fails: after \<open>addStep\<close> with the estimate \<open>.5\<close> the
  new step has the estimate \<open>NaN\<close>, the exported document holds \<open>null\<close> in its place, and
  the import of that document yields an outcome list that differs from the exported one.
\<close>

theorem export_import_loses_NaN_estimate:
  "estimatedMin (last (steps (hd (outcomes (addStep 1 example_fraction_estimate))))) = NaN
   \<and> outcomes (importData
         (FileText (Data (export_document ''2025-01-01T00:00:00.000Z'' (addStep 1 example_fraction_estimate))))
         (addStep 1 example_fraction_estimate))
       \<noteq> outcomes (addStep 1 example_fraction_estimate)"
  by (simp add: import_of_export)
     (simp add: example_fraction_estimate_def initial_state_def DEFAULT_OUTCOMES_def addStep_def
      showNotification_def trim_def isWhiteSpace_def parseInt_def isRadixDigit_def digitValue_def
      digitsValue_def mathMax0_def json_outcome_def json_step_def json_numval_def Let_def)

text \<open>
  C6, amended.  For every state in which every estimate is \<open>null\<close> or an integer, so
  neither \<open>NaN\<close> nor an infinity, which JSON writes as \<open>null\<close>, the import of the exported
  document, into any state, yields the outcome list, the notes and the time bank of the
  exported state.  The other numbers of a state are integers.
\<close>

theorem export_import_round_trip:
  assumes "estimates_finite (outcomes s)"
    and "exportData now downloaded s = (Some d, s1)"
  shows "outcomes (importData (FileText (Data d)) s') = outcomes s
    \<and> stepNotes (importData (FileText (Data d)) s') = stepNotes s
    \<and> timeBank (importData (FileText (Data d)) s') = timeBank s"
proof -
  from assms(2) have "d = export_document now s"
    by (simp add: exportData_def split: if_splits)
  then show ?thesis
    using assms(1) by (simp add: import_of_export json_outcomes_id)
qed

theorem export_import_round_trip_witness:
  "estimates_finite (outcomes (markStepDone example_running))
   \<and> exportData ''2025-01-01T00:00:00.000Z'' True (markStepDone example_running)
      = (Some (export_document ''2025-01-01T00:00:00.000Z'' (markStepDone example_running)),
         showNotification ''Data exported successfully'' ''success'' (markStepDone example_running))
   \<and> outcomes (importData
        (FileText (Data (export_document ''2025-01-01T00:00:00.000Z'' (markStepDone example_running))))
        initial_state) = outcomes (markStepDone example_running)
   \<and> timeBank (importData
        (FileText (Data (export_document ''2025-01-01T00:00:00.000Z'' (markStepDone example_running))))
        initial_state) = 15"
proof -
  have h: "estimates_finite (outcomes (markStepDone example_running))"
    by (simp add: estimates_finite_def finite_or_null_def markStepDone_def example_running_def
        showNotification_def)
  have e: "exportData ''2025-01-01T00:00:00.000Z'' True (markStepDone example_running)
      = (Some (export_document ''2025-01-01T00:00:00.000Z'' (markStepDone example_running)),
         showNotification ''Data exported successfully'' ''success'' (markStepDone example_running))"
    by (simp add: exportData_def)
  have "timeBank (markStepDone example_running) = 15"
    by (simp add: markStepDone_def example_running_def showNotification_def)
  with export_import_round_trip [OF h e, of initial_state] h e show ?thesis
    by simp
qed

section \<open>Actual minutes of unfinished steps\<close>

lemma importData_outcomes:
  "outcomes (importData ev s) = (case imported_outcomes ev of None \<Rightarrow> outcomes s | Some os \<Rightarrow> os)"
proof (cases ev)
  case (FileText p)
  show ?thesis
  proof (cases p)
    case Throws
    with FileText show ?thesis
      by (simp add: importData_def import_try_def imported_outcomes_def showNotification_def)
  next
    case (Data d)
    with FileText show ?thesis
      by (cases "doc_outcomes d")
         (simp_all add: importData_def import_try_def imported_outcomes_def showNotification_def)
  qed
qed (simp_all add: importData_def imported_outcomes_def showNotification_def)

lemma addStep_keeps_invariant:
  "actualMin_null_until_completed (outcomes s) \<Longrightarrow>
   actualMin_null_until_completed (outcomes (addStep oid s))"
  by (auto simp: actualMin_null_until_completed_def addStep_def showNotification_def
      list_all_iff Let_def)

lemma pauseTimer_keeps_invariant:
  "actualMin_null_until_completed (outcomes s) \<Longrightarrow>
   actualMin_null_until_completed (outcomes (pauseTimer s))"
  by (auto simp: actualMin_null_until_completed_def pauseTimer_def list_all_iff Let_def
      split: option.splits)

lemma markStepDone_keeps_invariant:
  "actualMin_null_until_completed (outcomes s) \<Longrightarrow>
   actualMin_null_until_completed (outcomes (markStepDone s))"
  by (auto simp: actualMin_null_until_completed_def markStepDone_def showNotification_def
      list_all_iff Let_def split: option.splits)

lemma addTime_keeps_outcomes: "outcomes (addTime s) = outcomes s"
  by (simp add: addTime_def showNotification_def)

text \<open>
  C7 as the specification states it fails for the import: the default outcomes satisfy
  the invariant, and the import of a document with an unfinished step that carries actual
  minutes yields a state that does not.
\<close>

theorem importData_breaks_actualMin_invariant:
  "actualMin_null_until_completed (outcomes initial_state)
   \<and> \<not> actualMin_null_until_completed
         (outcomes (importData (FileText (Data unfinished_with_actual_document)) initial_state))"
  by (simp add: importData_outcomes imported_outcomes_def unfinished_with_actual_document_def
      actualMin_null_until_completed_def initial_state_def DEFAULT_OUTCOMES_def)

text \<open>
  C7, amended.  Adding a step, pausing, completing and borrowing preserve the invariant
  that a step which is not completed has no actual minutes.  An import preserves it when
  the outcome list it installs satisfies it; the import does not check that list.
\<close>

theorem actualMin_null_until_completed_preserved:
  assumes "actualMin_null_until_completed (outcomes s)"
  shows "actualMin_null_until_completed (outcomes (addStep oid s))
    \<and> actualMin_null_until_completed (outcomes (pauseTimer s))
    \<and> actualMin_null_until_completed (outcomes (markStepDone s))
    \<and> actualMin_null_until_completed (outcomes (addTime s))
    \<and> ((case imported_outcomes ev of None \<Rightarrow> True
          | Some os \<Rightarrow> actualMin_null_until_completed os)
        \<longrightarrow> actualMin_null_until_completed (outcomes (importData ev s)))"
proof -
  have "(case imported_outcomes ev of None \<Rightarrow> True
          | Some os \<Rightarrow> actualMin_null_until_completed os)
        \<longrightarrow> actualMin_null_until_completed (outcomes (importData ev s))"
    using assms by (simp add: importData_outcomes split: option.splits)
  with assms show ?thesis
    by (simp add: addStep_keeps_invariant pauseTimer_keeps_invariant
        markStepDone_keeps_invariant addTime_keeps_outcomes)
qed

theorem actualMin_null_until_completed_preserved_witness:
  "actualMin_null_until_completed (outcomes example_running)
   \<and> imported_outcomes (FileText (Data (export_document [] initial_state))) = Some DEFAULT_OUTCOMES
   \<and> actualMin_null_until_completed DEFAULT_OUTCOMES
   \<and> actualMin_null_until_completed (outcomes (addStep 1 example_running))
   \<and> actualMin_null_until_completed (outcomes (pauseTimer example_running))
   \<and> actualMin_null_until_completed (outcomes (markStepDone example_running))
   \<and> actualMin_null_until_completed (outcomes (addTime example_running))
   \<and> actualMin_null_until_completed
        (outcomes (importData (FileText (Data (export_document [] initial_state))) example_running))"
proof -
  have h: "actualMin_null_until_completed (outcomes example_running)"
    by (simp add: actualMin_null_until_completed_def example_running_def)
  have i: "imported_outcomes (FileText (Data (export_document [] initial_state))) = Some DEFAULT_OUTCOMES"
    by (simp add: imported_outcomes_def export_document_def initial_state_def DEFAULT_OUTCOMES_def
        json_outcome_def json_step_def json_numval_def)
  have d: "actualMin_null_until_completed DEFAULT_OUTCOMES"
    by (simp add: actualMin_null_until_completed_def DEFAULT_OUTCOMES_def)
  from actualMin_null_until_completed_preserved
         [OF h, of 1 "FileText (Data (export_document [] initial_state))"] h i d
  show ?thesis by simp
qed

end
